theory Spec2Isabelle
  imports Complex_Main "HOL-Library.Sublist"
begin

section \<open>goini: an ini reader (goini.go)\<close>

text \<open>
  The package keeps a two-level map, section name to key to value, filled by a
  line-oriented parser and read through typed getters with a default. Go strings and
  byte slices are byte sequences: they are \<open>string\<close> here (a \<open>char\<close> is one byte).
\<close>

subsection \<open>Bytes and UTF-8 (package unicode/utf8)\<close>

definition byte :: "char \<Rightarrow> nat" where
  "byte c = of_char c"

definition RuneError :: nat where
  "RuneError = 0xFFFD"

definition RuneSelf :: nat where
  "RuneSelf = 0x80"

definition UTFMax :: nat where
  "UTFMax = 4"

text \<open>
  The table \<open>first\<close> of utf8.go with its accept ranges: for a leading byte, the length of
  the sequence and the range allowed for the second byte; \<open>None\<close> for the entries
  \<open>xx\<close> (invalid) and \<open>as\<close> (ASCII), which decode as one byte.
\<close>

definition first :: "nat \<Rightarrow> (nat \<times> nat \<times> nat) option" where
  "first b =
     (if b < 0xC2 then None
      else if b < 0xE0 then Some (2, 0x80, 0xBF)
      else if b = 0xE0 then Some (3, 0xA0, 0xBF)
      else if b < 0xED then Some (3, 0x80, 0xBF)
      else if b = 0xED then Some (3, 0x80, 0x9F)
      else if b < 0xF0 then Some (3, 0x80, 0xBF)
      else if b = 0xF0 then Some (4, 0x90, 0xBF)
      else if b < 0xF4 then Some (4, 0x80, 0xBF)
      else if b = 0xF4 then Some (4, 0x80, 0x8F)
      else None)"

definition contb :: "nat \<Rightarrow> bool" where
  "contb b = (0x80 \<le> b \<and> b \<le> 0xBF)"

text \<open>\<open>utf8.DecodeRuneInString\<close>: the rune and its width in bytes.\<close>

definition DecodeRuneInString :: "string \<Rightarrow> nat \<times> nat" where
  "DecodeRuneInString s =
     (case s of
        [] \<Rightarrow> (RuneError, 0)
      | c0 # _ \<Rightarrow>
         (let s0 = byte c0 in
          if s0 < RuneSelf then (s0, 1)
          else case first s0 of
            None \<Rightarrow> (RuneError, 1)
          | Some (sz, lo, hi) \<Rightarrow>
             if length s < sz then (RuneError, 1)
             else let s1 = byte (s ! 1) in
               if s1 < lo \<or> hi < s1 then (RuneError, 1)
               else if sz \<le> 2 then ((s0 mod 0x20) * 0x40 + s1 mod 0x40, 2)
               else let s2 = byte (s ! 2) in
                 if \<not> contb s2 then (RuneError, 1)
                 else if sz \<le> 3
                   then ((s0 mod 0x10) * 0x1000 + (s1 mod 0x40) * 0x40 + s2 mod 0x40, 3)
                 else let s3 = byte (s ! 3) in
                   if \<not> contb s3 then (RuneError, 1)
                   else ((s0 mod 0x08) * 0x40000 + (s1 mod 0x40) * 0x1000
                           + (s2 mod 0x40) * 0x40 + s3 mod 0x40, 4)))"

definition RuneStart :: "nat \<Rightarrow> bool" where
  "RuneStart b = (\<not> contb b)"

text \<open>
  The backward search of \<open>utf8.DecodeLastRuneInString\<close>: from \<open>start\<close> down to \<open>lim\<close>,
  stop at the first byte that can start a rune; \<open>k\<close> counts the positions left to try.
  The result is an \<open>int\<close>, since the Go loop can leave \<open>start\<close> at \<open>-1\<close>.
\<close>

fun lastStart :: "string \<Rightarrow> nat \<Rightarrow> int \<Rightarrow> int" where
  "lastStart s 0 start = start"
| "lastStart s (Suc k) start =
     (if RuneStart (byte (s ! nat start)) then start else lastStart s k (start - 1))"

definition DecodeLastRuneInString :: "string \<Rightarrow> nat \<times> nat" where
  "DecodeLastRuneInString s =
     (let e = length s in
      if e = 0 then (RuneError, 0)
      else let r = byte (s ! (e - 1)) in
        if r < RuneSelf then (r, 1)
        else let lim = (if e < UTFMax then 0 else e - UTFMax);
                 st = lastStart s (e - 1 - lim) (int e - 2);
                 start = (if st < 0 then 0 else nat st);
                 (r', size') = DecodeRuneInString (drop start s)
             in if start + size' \<noteq> e then (RuneError, 1) else (r', size'))"

subsection \<open>White space (packages unicode and strings)\<close>

definition asciiSpace :: "nat \<Rightarrow> bool" where
  "asciiSpace b = (b = 0x09 \<or> b = 0x0A \<or> b = 0x0B \<or> b = 0x0C \<or> b = 0x0D \<or> b = 0x20)"

definition IsSpace :: "nat \<Rightarrow> bool" where
  "IsSpace r =
     (asciiSpace r \<or> r = 0x85 \<or> r = 0xA0 \<or> r = 0x1680 \<or> (0x2000 \<le> r \<and> r \<le> 0x200A)
      \<or> r = 0x2028 \<or> r = 0x2029 \<or> r = 0x202F \<or> r = 0x205F \<or> r = 0x3000)"

text \<open>
  \<open>strings.TrimLeftFunc\<close>: drop leading runes while \<open>f\<close> holds. A rune of a non-empty
  string is at least one byte wide, so the rest is written from the tail.
\<close>

fun TrimLeftFunc :: "(nat \<Rightarrow> bool) \<Rightarrow> string \<Rightarrow> string" where
  "TrimLeftFunc f [] = []"
| "TrimLeftFunc f (c # cs) =
     (let (r, wid) = DecodeRuneInString (c # cs) in
      if f r then TrimLeftFunc f (drop (wid - 1) cs) else c # cs)"

text \<open>
  \<open>strings.lastIndexFunc s f false\<close>: the start of the last rune for which \<open>f\<close> fails,
  \<open>None\<close> for Go's \<open>-1\<close>. The loop variable \<open>i\<close> decreases by the width of the rune.
\<close>

fun lastIndexFunc :: "(nat \<Rightarrow> bool) \<Rightarrow> string \<Rightarrow> nat \<Rightarrow> nat option" where
  "lastIndexFunc f s 0 = None"
| "lastIndexFunc f s (Suc n) =
     (let (r, wid) = DecodeLastRuneInString (take (Suc n) s); i = n - (wid - 1) in
      if f r then lastIndexFunc f s i else Some i)"

definition TrimRightFunc :: "(nat \<Rightarrow> bool) \<Rightarrow> string \<Rightarrow> string" where
  "TrimRightFunc f s =
     (case lastIndexFunc f s (length s) of
        None \<Rightarrow> []
      | Some i \<Rightarrow>
          if RuneSelf \<le> byte (s ! i)
          then take (i + snd (DecodeRuneInString (drop i s))) s
          else take (i + 1) s)"

definition TrimFunc :: "(nat \<Rightarrow> bool) \<Rightarrow> string \<Rightarrow> string" where
  "TrimFunc f s = TrimRightFunc f (TrimLeftFunc f s)"

text \<open>
  The second loop of \<open>strings.TrimSpace\<close>: \<open>stop\<close> walks down from the end over ASCII
  white space and hands over to the rune-aware trim at a non-ASCII byte.
\<close>

fun trimStop :: "string \<Rightarrow> nat \<Rightarrow> string" where
  "trimStop s 0 = []"
| "trimStop s (Suc n) =
     (let c = byte (s ! n) in
      if RuneSelf \<le> c then TrimRightFunc IsSpace (take (Suc n) s)
      else if asciiSpace c then trimStop s n
      else take (Suc n) s)"

fun TrimSpace :: "string \<Rightarrow> string" where
  "TrimSpace [] = []"
| "TrimSpace (c # cs) =
     (if RuneSelf \<le> byte c then TrimFunc IsSpace (c # cs)
      else if asciiSpace (byte c) then TrimSpace cs
      else trimStop (c # cs) (length (c # cs)))"

subsection \<open>strings.Split\<close>

fun Index :: "string \<Rightarrow> string \<Rightarrow> nat option" where
  "Index [] sep = (if sep = [] then Some 0 else None)"
| "Index (c # cs) sep =
     (if prefix sep (c # cs) then Some 0 else map_option Suc (Index cs sep))"

text \<open>\<open>strings.explode s (-1)\<close>: one string per rune, invalid bytes one by one.\<close>

fun explode :: "string \<Rightarrow> string list" where
  "explode [] = []"
| "explode (c # cs) =
     (let wid = snd (DecodeRuneInString (c # cs)) in
      (c # take (wid - 1) cs) # explode (drop (wid - 1) cs))"

lemma Index_bound: "Index s sep = Some m \<Longrightarrow> m + length sep \<le> length s"
proof (induction s arbitrary: m)
  case Nil
  then show ?case by (simp split: if_splits)
next
  case (Cons c cs)
  show ?case
  proof (cases "prefix sep (c # cs)")
    case True
    then have "length sep \<le> length (c # cs)" by (rule prefix_length_le)
    with True Cons.prems show ?thesis by simp
  next
    case False
    with Cons.prems obtain m' where "Index cs sep = Some m'" "m = Suc m'" by auto
    with Cons.IH show ?thesis by fastforce
  qed
qed

text \<open>
  The loop of \<open>strings.genSplit\<close> for a non-empty separator: cut at the first
  occurrence, continue behind it; the last piece is what is left.
\<close>

function genSplit :: "string \<Rightarrow> string \<Rightarrow> string list" where
  "genSplit s sep =
     (if sep = [] then explode s
      else case Index s sep of
        None \<Rightarrow> [s]
      | Some m \<Rightarrow> take m s # genSplit (drop (m + length sep) s) sep)"
  by pat_completeness auto
termination
proof (relation "measure (\<lambda>(s, sep). length s)")
  show "wf (measure (\<lambda>(s, sep). length s))" by simp
next
  fix s sep :: string and m :: nat
  assume "sep \<noteq> []" "Index s sep = Some m"
  then have "0 < length sep" "m + length sep \<le> length s"
    using Index_bound by auto
  then have "length s - (m + length sep) < length s" by arith
  then show "((drop (m + length sep) s, sep), (s, sep)) \<in> measure (\<lambda>(s, sep). length s)"
    by simp
qed

declare genSplit.simps [simp del]

definition Split :: "string \<Rightarrow> string \<Rightarrow> string list" where
  "Split s sep = genSplit s sep"

subsection \<open>The line scanner (package bufio)\<close>

text \<open>
  \<open>parseLines\<close> reads its lines from a \<open>bufio.Scanner\<close> with the default split function
  \<open>bufio.ScanLines\<close> and the default buffer limit.
\<close>

definition MaxScanTokenSize :: nat where
  "MaxScanTokenSize = 64 * 1024"

definition dropCR :: "string \<Rightarrow> string" where
  "dropCR data = (if data \<noteq> [] \<and> last data = CHR 0x0D then butlast data else data)"

fun IndexByte :: "string \<Rightarrow> char \<Rightarrow> nat option" where
  "IndexByte [] b = None"
| "IndexByte (c # cs) b = (if c = b then Some 0 else map_option Suc (IndexByte cs b))"

text \<open>\<open>bufio.ScanLines\<close>: how far to advance, and the token if there is one.\<close>

definition ScanLines :: "string \<Rightarrow> bool \<Rightarrow> nat \<times> string option" where
  "ScanLines data atEOF =
     (if atEOF \<and> data = [] then (0, None)
      else case IndexByte data (CHR 0x0A) of
        Some i \<Rightarrow> (i + 1, Some (dropCR (take i data)))
      | None \<Rightarrow> if atEOF then (length data, Some (dropCR data)) else (0, None))"

text \<open>
  One call of \<open>Scanner.Scan\<close> on the input that is left. The scanner's buffer grows up to
  \<open>MaxScanTokenSize\<close> bytes, so the split function sees at most that many bytes from the
  start of the token, and sees the end of the input only if it lies inside them. When the
  split function asks for more data than the buffer can hold, \<open>Scan\<close> sets \<open>ErrTooLong\<close>
  and returns false, as it does at the end of the input: both are \<open>None\<close>, since
  \<open>parseLines\<close> does not look at \<open>scanner.Err()\<close>.
\<close>

definition Scan :: "string \<Rightarrow> (string \<times> string) option" where
  "Scan input =
     (case ScanLines (take MaxScanTokenSize input) (length input < MaxScanTokenSize) of
        (advance, Some token) \<Rightarrow> Some (token, drop advance input)
      | (advance, None) \<Rightarrow> None)"

lemma IndexByte_less: "IndexByte s b = Some i \<Longrightarrow> i < length s"
  by (induction s arbitrary: i) (auto split: if_splits)

lemma Scan_shorter: "Scan input = Some (token, rest) \<Longrightarrow> length rest < length input"
proof -
  assume a: "Scan input = Some (token, rest)"
  have "0 < MaxScanTokenSize"
    by (simp add: MaxScanTokenSize_def)
  with a have ne: "input \<noteq> []"
    by (auto simp: Scan_def ScanLines_def)
  show ?thesis
  proof (cases "IndexByte (take MaxScanTokenSize input) (CHR 0x0A)")
    case None
    with a have "rest = drop (length (take MaxScanTokenSize input)) input"
      "length input < MaxScanTokenSize"
      by (auto simp: Scan_def ScanLines_def split: if_splits)
    with ne show ?thesis by simp
  next
    case (Some i)
    with a have "rest = drop (i + 1) input"
      by (auto simp: Scan_def ScanLines_def split: if_splits)
    with ne show ?thesis by simp
  qed
qed

text \<open>The tokens of the loop \<open>for scanner.Scan() { line := scanner.Text() ... }\<close>.\<close>

function scanTokens :: "string \<Rightarrow> string list" where
  "scanTokens input =
     (case Scan input of
        None \<Rightarrow> []
      | Some (token, rest) \<Rightarrow> token # scanTokens rest)"
  by pat_completeness auto
termination
  by (relation "measure length") (auto simp: Scan_shorter)

declare scanTokens.simps [simp del]

subsection \<open>The store\<close>

datatype panic = IndexOutOfRange | SliceBoundsOutOfRange | NilMapAssignment

record KeyValue =
  Item :: "string \<rightharpoonup> string"

record Ini =
  fileName :: string
  buffer :: string
  sections :: "string \<rightharpoonup> KeyValue"

text \<open>
  A Go map that is \<open>nil\<close> reads like an empty one, and the only writes to \<open>sections\<close>
  come after \<open>clear\<close> has made it, so \<open>nil\<close> and the empty map are both \<open>Map.empty\<close>.
  A section that is missing from \<open>sections\<close> reads as the zero \<open>KeyValue\<close>, whose \<open>Item\<close>
  is \<open>nil\<close>: reading a key from it gives the zero value, writing to it panics.
\<close>

definition clear :: "Ini \<Rightarrow> Ini" where
  "clear i = i\<lparr>sections := Map.empty, buffer := []\<rparr>"

definition NewIni :: Ini where
  "NewIni = clear \<lparr>fileName = [], buffer = [], sections = Map.empty\<rparr>"

subsection \<open>parseLines\<close>

type_synonym pstate = "string \<times> (string \<rightharpoonup> KeyValue)"

text \<open>The slice expression \<open>s[lo:hi]\<close> of a string.\<close>

definition slice :: "string \<Rightarrow> nat \<Rightarrow> nat \<Rightarrow> panic + string" where
  "slice s lo hi =
     (if lo \<le> hi \<and> hi \<le> length s then Inr (take (hi - lo) (drop lo s))
      else Inl SliceBoundsOutOfRange)"

text \<open>
  The body of the loop, on the pair of \<open>currentSection\<close> and \<open>i.sections\<close>; every
  \<open>continue\<close> returns the state as it is.
\<close>

definition parseLine :: "string \<Rightarrow> pstate \<Rightarrow> panic + pstate" where
  "parseLine text st =
     (let line = TrimSpace text; currentSection = fst st; secs = snd st in
      case line of
        [] \<Rightarrow> Inr st
      | c # _ \<Rightarrow>
          if c = CHR ''#'' \<or> c = CHR '';'' then Inr st
          else if c = CHR ''['' then
            (if last line \<noteq> CHR '']'' then Inr st
             else case slice line 1 (length line - 1) of
               Inl p \<Rightarrow> Inl p
             | Inr currentSection' \<Rightarrow>
                 (case secs currentSection' of
                    None \<Rightarrow> Inr (currentSection', secs(currentSection' \<mapsto> \<lparr>Item = Map.empty\<rparr>))
                  | Some _ \<Rightarrow> Inr (currentSection', secs)))
          else
            (let pairs = Split line ''=''
             in if length pairs \<noteq> 2 then Inr st
                else let key = TrimSpace (pairs ! 0); val = TrimSpace (pairs ! 1)
                  in case secs currentSection of
                       None \<Rightarrow> Inl NilMapAssignment
                     | Some kv \<Rightarrow>
                         Inr (currentSection,
                              secs(currentSection \<mapsto> kv\<lparr>Item := (Item kv)(key \<mapsto> val)\<rparr>))))"

fun parseLoop :: "string list \<Rightarrow> pstate \<Rightarrow> panic + pstate" where
  "parseLoop [] st = Inr st"
| "parseLoop (text # rest) st =
     (case parseLine text st of
        Inl p \<Rightarrow> Inl p
      | Inr st' \<Rightarrow> parseLoop rest st')"

definition parseLines :: "Ini \<Rightarrow> panic + Ini" where
  "parseLines i =
     (case parseLoop (scanTokens (buffer i))
             ([], (sections i)([] \<mapsto> \<lparr>Item = Map.empty\<rparr>)) of
        Inl p \<Rightarrow> Inl p
      | Inr st \<Rightarrow> Inr (i\<lparr>sections := snd st\<rparr>))"

subsection \<open>Loading\<close>

definition LoadFromBytes :: "Ini \<Rightarrow> string \<Rightarrow> panic + Ini" where
  "LoadFromBytes i buf = parseLines ((clear i)\<lparr>buffer := buf\<rparr>)"

text \<open>
  \<open>os.ReadFile\<close> is the file system \<open>fs\<close>: for a path, the error or the content.
  The result is the instance after the call and the error returned (\<open>None\<close> for \<open>nil\<close>).
\<close>

definition LoadFromFile :: "(string \<Rightarrow> 'e + string) \<Rightarrow> Ini \<Rightarrow> string \<Rightarrow> panic + Ini \<times> 'e option" where
  "LoadFromFile fs i path =
     (case fs path of
        Inl err \<Rightarrow> Inr (i, Some err)
      | Inr buf \<Rightarrow>
          (case LoadFromBytes i buf of
             Inl p \<Rightarrow> Inl p
           | Inr i' \<Rightarrow> Inr (i', None)))"

subsection \<open>Queries\<close>

definition KeyExists :: "Ini \<Rightarrow> string \<Rightarrow> string \<Rightarrow> bool" where
  "KeyExists i section key =
     (case sections i section of
        None \<Rightarrow> False
      | Some kv \<Rightarrow> Item kv key \<noteq> None)"

definition SectionExists :: "Ini \<Rightarrow> string \<Rightarrow> bool" where
  "SectionExists i section = (sections i section \<noteq> None)"

text \<open>
  \<open>GetSectionValues\<close> appends the keys of \<open>sections\<close> in the order of Go's map iteration,
  which is not specified: the model gives the set of the elements of the slice. Each key
  is in the slice once.
\<close>

definition GetSectionValues :: "Ini \<Rightarrow> string set" where
  "GetSectionValues i = dom (sections i)"

definition getString :: "Ini \<Rightarrow> string \<Rightarrow> string \<Rightarrow> string" where
  "getString i section key =
     (case sections i section of
        None \<Rightarrow> []
      | Some kv \<Rightarrow> (case Item kv key of None \<Rightarrow> [] | Some v \<Rightarrow> v))"

definition GetString :: "Ini \<Rightarrow> string \<Rightarrow> string \<Rightarrow> string \<Rightarrow> string" where
  "GetString i section key def =
     (let result = getString i section key in if result = [] then def else result)"

subsection \<open>Integers (package strconv, atoi.go)\<close>

datatype numError = ErrSyntax | ErrRange | ErrBase | ErrBitSize

text \<open>\<open>IntSize\<close> is the width of \<open>int\<close>; the getters pass the bit size 32, not 0.\<close>

definition IntSize :: int where
  "IntSize = 64"

text \<open>\<open>lower(c)\<close> is \<open>c | ('x' - 'X')\<close>: it sets bit 5 of the byte.\<close>

definition lower :: "nat \<Rightarrow> nat" where
  "lower b = (if (b div 0x20) mod 2 = 0 then b + 0x20 else b)"

definition isDigit :: "nat \<Rightarrow> bool" where
  "isDigit b = (0x30 \<le> b \<and> b \<le> 0x39)"

text \<open>
  The loop of \<open>underscoreOK\<close>; \<open>saw\<close> is the kind of the last character:
  \<open>0\<close> a digit, \<open>_\<close> an underscore, \<open>!\<close> anything else, \<open>^\<close> the beginning.
\<close>

fun underscoreLoop :: "bool \<Rightarrow> char \<Rightarrow> string \<Rightarrow> bool" where
  "underscoreLoop hex saw [] = (saw \<noteq> CHR ''_'')"
| "underscoreLoop hex saw (c # cs) =
     (if isDigit (byte c) \<or> (hex \<and> 0x61 \<le> lower (byte c) \<and> lower (byte c) \<le> 0x66)
        then underscoreLoop hex (CHR ''0'') cs
      else if c = CHR ''_''
        then (if saw \<noteq> CHR ''0'' then False else underscoreLoop hex (CHR ''_'') cs)
      else if saw = CHR ''_'' then False
      else underscoreLoop hex (CHR ''!'') cs)"

definition underscoreOK :: "string \<Rightarrow> bool" where
  "underscoreOK s0 =
     (let s = (case s0 of [] \<Rightarrow> [] | c # cs \<Rightarrow> if c = CHR ''-'' \<or> c = CHR ''+'' then cs else s0)
      in case s of
           c0 # c1 # cs \<Rightarrow>
             if c0 = CHR ''0'' \<and> lower (byte c1) \<in> {0x62, 0x6F, 0x78}
             then underscoreLoop (lower (byte c1) = 0x78) (CHR ''0'') cs
             else underscoreLoop False (CHR ''^'') s
         | _ \<Rightarrow> underscoreLoop False (CHR ''^'') s)"

text \<open>
  One round of the digit loop of \<open>ParseUint\<close>, with \<open>n\<close> a \<open>uint64\<close>: \<open>Inl\<close> is a
  return from inside the loop, \<open>Inr\<close> the new \<open>n\<close> and the flag \<open>underscores\<close>.
\<close>

definition uintStep ::
  "nat \<Rightarrow> bool \<Rightarrow> nat \<Rightarrow> nat \<Rightarrow> char \<Rightarrow> nat \<times> bool \<Rightarrow> (nat \<times> numError) + (nat \<times> bool)" where
  "uintStep base base0 cutoff maxVal c st =
     (let n = fst st; underscores = snd st in
      if c = CHR ''_'' \<and> base0 then Inr (n, True)
      else if \<not> isDigit (byte c) \<and> \<not> (0x61 \<le> lower (byte c) \<and> lower (byte c) \<le> 0x7A)
        then Inl (0, ErrSyntax)
      else let d = (if isDigit (byte c) then byte c - 0x30 else lower (byte c) - 0x61 + 10) in
        if base \<le> d then Inl (0, ErrSyntax)
        else if cutoff \<le> n then Inl (maxVal, ErrRange)
        else let n' = (n * base) mod 2 ^ 64; n1 = (n' + d) mod 2 ^ 64 in
          if n1 < n' \<or> maxVal < n1 then Inl (maxVal, ErrRange)
          else Inr (n1, underscores))"

fun uintLoop ::
  "(char \<Rightarrow> nat \<times> bool \<Rightarrow> (nat \<times> numError) + (nat \<times> bool)) \<Rightarrow> string \<Rightarrow> nat \<times> bool
     \<Rightarrow> (nat \<times> numError) + (nat \<times> bool)" where
  "uintLoop step [] st = Inr st"
| "uintLoop step (c # cs) st =
     (case step c st of
        Inl r \<Rightarrow> Inl r
      | Inr st' \<Rightarrow> uintLoop step cs st')"

definition maxUint64 :: nat where
  "maxUint64 = 2 ^ 64 - 1"

text \<open>With the argument \<open>base = 0\<close>: the base of the prefix and the digits behind it.\<close>

definition basePrefix :: "string \<Rightarrow> nat \<times> string" where
  "basePrefix s =
     (case s of
        c0 # rest \<Rightarrow>
          if c0 = CHR ''0'' then
            (if 3 \<le> length s \<and> lower (byte (s ! 1)) = 0x62 then (2, drop 2 s)
             else if 3 \<le> length s \<and> lower (byte (s ! 1)) = 0x6F then (8, drop 2 s)
             else if 3 \<le> length s \<and> lower (byte (s ! 1)) = 0x78 then (16, drop 2 s)
             else (8, drop 1 s))
          else (10, s)
      | [] \<Rightarrow> (10, s))"

definition ParseUint :: "string \<Rightarrow> int \<Rightarrow> int \<Rightarrow> nat \<times> numError option" where
  "ParseUint s0 base bitSize =
     (if s0 = [] then (0, Some ErrSyntax)
      else if \<not> (2 \<le> base \<and> base \<le> 36) \<and> base \<noteq> 0 then (0, Some ErrBase)
      else let (b, s) = (if base = 0 then basePrefix s0 else (nat base, s0)) in
        if bitSize < 0 \<or> 64 < bitSize then (0, Some ErrBitSize)
        else let bits = nat (if bitSize = 0 then IntSize else bitSize);
                 cutoff = maxUint64 div b + 1;
                 maxVal = (2 ^ bits + 2 ^ 64 - 1) mod 2 ^ 64
          in case uintLoop (uintStep b (base = 0) cutoff maxVal) s (0, False) of
               Inl (v, e) \<Rightarrow> (v, Some e)
             | Inr (n, underscores) \<Rightarrow>
                 if underscores \<and> \<not> underscoreOK s0 then (0, Some ErrSyntax)
                 else (n, None))"

definition ParseInt :: "string \<Rightarrow> int \<Rightarrow> int \<Rightarrow> int \<times> numError option" where
  "ParseInt s0 base bitSize =
     (case s0 of
        [] \<Rightarrow> (0, Some ErrSyntax)
      | c # cs \<Rightarrow>
         (let neg = (c = CHR ''-'');
              s = (if c = CHR ''+'' \<or> c = CHR ''-'' then cs else s0);
              (un, err) = ParseUint s base bitSize
          in if err \<noteq> None \<and> err \<noteq> Some ErrRange then (0, err)
             else let bits = (if bitSize = 0 then IntSize else bitSize);
                      cutoff = (2::nat) ^ nat (bits - 1)
               in if \<not> neg \<and> cutoff \<le> un then (int cutoff - 1, Some ErrRange)
                  else if neg \<and> cutoff < un then (- int cutoff, Some ErrRange)
                  else (if neg then - int un else int un, None)))"

definition ParseBool :: "string \<Rightarrow> bool \<times> numError option" where
  "ParseBool str =
     (if str \<in> {''1'', ''t'', ''T'', ''true'', ''TRUE'', ''True''} then (True, None)
      else if str \<in> {''0'', ''f'', ''F'', ''false'', ''FALSE'', ''False''} then (False, None)
      else (False, Some ErrSyntax))"

subsection \<open>The integer and boolean getters\<close>

text \<open>
  \<open>int(result)\<close> and \<open>uint(result)\<close> convert a value that fits 32 bits, so they keep it
  whatever the width of \<open>int\<close> is.
\<close>

definition GetInt :: "Ini \<Rightarrow> string \<Rightarrow> string \<Rightarrow> int \<Rightarrow> int" where
  "GetInt i section key def =
     (let strValue = getString i section key;
          (result, err) = ParseInt strValue 0 32
      in if err \<noteq> None then def else result)"

definition GetUint :: "Ini \<Rightarrow> string \<Rightarrow> string \<Rightarrow> nat \<Rightarrow> nat" where
  "GetUint i section key def =
     (let strValue = getString i section key;
          (result, err) = ParseUint strValue 0 32
      in if err \<noteq> None then def else result)"

definition GetBool :: "Ini \<Rightarrow> string \<Rightarrow> string \<Rightarrow> bool \<Rightarrow> bool" where
  "GetBool i section key def =
     (let strValue = getString i section key;
          (result, err) = ParseBool strValue
      in if err \<noteq> None then def else result)"

subsection \<open>GetStringSlice\<close>

text \<open>The loop \<open>for i := 0; i < len(result); i++\<close> that sets the default.\<close>

function setDefaults :: "nat \<Rightarrow> string \<Rightarrow> string list \<Rightarrow> string list" where
  "setDefaults i def result =
     (if i < length result
      then setDefaults (i + 1) def (if result ! i = [] then result[i := def] else result)
      else result)"
  by pat_completeness auto
termination
  by (relation "measure (\<lambda>(i, def, result). length result - i)") auto

declare setDefaults.simps [simp del]

definition GetStringSlice :: "Ini \<Rightarrow> string \<Rightarrow> string \<Rightarrow> string \<Rightarrow> string \<Rightarrow> string list" where
  "GetStringSlice i section key def sep =
     (let result = Split (getString i section key) sep
      in if sep = [] \<or> length result = 0 then result
         else setDefaults 0 def result)"

subsection \<open>Floating point (package strconv, atof.go)\<close>

text \<open>
  A floating-point value: a finite one is its sign, an integer significand \<open>m\<close> and the
  exponent \<open>e\<close> of its last bit, and stands for \<open>m * 2 ^ e\<close>.
\<close>

datatype fpval = Fin bool nat int | Infinity bool | NaN

record floatInfo =
  mantbits :: nat
  expbits :: nat
  bias :: int

definition float32info :: floatInfo where
  "float32info = \<lparr>mantbits = 23, expbits = 8, bias = - 127\<rparr>"

definition float64info :: floatInfo where
  "float64info = \<lparr>mantbits = 52, expbits = 11, bias = - 1023\<rparr>"

function bitLen :: "nat \<Rightarrow> nat" where
  "bitLen n = (if n = 0 then 0 else 1 + bitLen (n div 2))"
  by pat_completeness auto
termination
  by (relation "measure id") auto

declare bitLen.simps [simp del]

text \<open>\<open>geq2 num den k\<close>: the fraction \<open>num / den\<close> is at least \<open>2 ^ k\<close>.\<close>

definition geq2 :: "nat \<Rightarrow> nat \<Rightarrow> int \<Rightarrow> bool" where
  "geq2 num den k = (if 0 \<le> k then den * 2 ^ nat k \<le> num else den \<le> num * 2 ^ nat (- k))"

text \<open>
  The IEEE 754 rounding that \<open>ParseFloat\<close> and the conversion \<open>float32(x)\<close> perform, to
  the nearest value of the format, ties to the even significand: for the fraction
  \<open>num / den\<close>, the significand and exponent of the result, \<open>None\<close> when the rounded
  value is beyond the largest finite one. \<open>e\<close> is the binary exponent of the fraction, not
  below the smallest normal exponent; the last bit of the result has exponent
  \<open>e - mantbits\<close>.
\<close>

definition roundFloat :: "floatInfo \<Rightarrow> nat \<Rightarrow> nat \<Rightarrow> (nat \<times> int) option" where
  "roundFloat flt num den =
     (let minExp = bias flt + 1;
          maxExp = 2 ^ expbits flt + bias flt - 2;
          e0 = int (bitLen num) - int (bitLen den);
          e1 = (if geq2 num den e0 then e0 else e0 - 1);
          e = (if num = 0 \<or> e1 < minExp then minExp else e1);
          sh = e - int (mantbits flt);
          n = (if 0 \<le> sh then num else num * 2 ^ nat (- sh));
          d = (if 0 \<le> sh then den * 2 ^ nat sh else den);
          f = n div d;
          r = n mod d;
          m = (if 2 * r < d then f else if d < 2 * r then f + 1
               else if even f then f else f + 1)
      in if geq2 m 1 (maxExp + 1 - sh) then None else Some (m, sh))"

text \<open>The conversion \<open>float32(x)\<close> of a \<open>float64\<close>.\<close>

definition float32 :: "fpval \<Rightarrow> fpval" where
  "float32 x =
     (case x of
        Fin neg m e \<Rightarrow>
          (case roundFloat float32info (if 0 \<le> e then m * 2 ^ nat e else m)
                  (if 0 \<le> e then 1 else 2 ^ nat (- e)) of
             None \<Rightarrow> Infinity neg
           | Some (m', e') \<Rightarrow> Fin neg m' e')
      | _ \<Rightarrow> x)"

fun commonPrefixLenIgnoreCase :: "string \<Rightarrow> string \<Rightarrow> nat" where
  "commonPrefixLenIgnoreCase (c # cs) (p # ps) =
     (if (if 0x41 \<le> byte c \<and> byte c \<le> 0x5A then byte c + 0x20 else byte c) \<noteq> byte p
      then 0 else 1 + commonPrefixLenIgnoreCase cs ps)"
| "commonPrefixLenIgnoreCase cs ps = 0"

definition infinityPrefix :: "bool \<Rightarrow> nat \<Rightarrow> string \<Rightarrow> (fpval \<times> nat) option" where
  "infinityPrefix neg nsign s =
     (let n0 = commonPrefixLenIgnoreCase s ''infinity'';
          n = (if 3 < n0 \<and> n0 < 8 then 3 else n0)
      in if n = 3 \<or> n = 8 then Some (Infinity neg, nsign + n) else None)"

text \<open>\<open>special\<close>: the value and the length of a leading infinity or NaN.\<close>

definition special :: "string \<Rightarrow> (fpval \<times> nat) option" where
  "special s =
     (case s of
        [] \<Rightarrow> None
      | c # cs \<Rightarrow>
          if c = CHR ''+'' \<or> c = CHR ''-'' then infinityPrefix (c = CHR ''-'') 1 cs
          else if c = CHR ''i'' \<or> c = CHR ''I'' then infinityPrefix False 0 s
          else if c = CHR ''n'' \<or> c = CHR ''N'' then
            (if commonPrefixLenIgnoreCase s ''nan'' = 3 then Some (NaN, 3) else None)
          else None)"

text \<open>
  The state of the digit loop of \<open>readFloat\<close>. The significand keeps every digit: the
  value returned is the rounding of all of them (\<open>readFloat\<close> itself keeps 19 and the
  flag \<open>trunc\<close>, and the decimal conversion behind it reads the digits again).
\<close>

record digits =
  sawdot :: bool
  sawdigits :: bool
  nd :: nat
  dp :: int
  mantissa :: nat
  underscores :: bool

text \<open>One round of the digit loop; \<open>None\<close> is \<open>break loop\<close>.\<close>

definition digitStep :: "bool \<Rightarrow> char \<Rightarrow> digits \<Rightarrow> digits option" where
  "digitStep hex c st =
     (if c = CHR ''_'' then Some (st\<lparr>underscores := True\<rparr>)
      else if c = CHR ''.'' then
        (if sawdot st then None else Some (st\<lparr>sawdot := True, dp := int (nd st)\<rparr>))
      else if isDigit (byte c) then
        (if c = CHR ''0'' \<and> nd st = 0 then Some (st\<lparr>sawdigits := True, dp := dp st - 1\<rparr>)
         else Some (st\<lparr>sawdigits := True, nd := nd st + 1,
                       mantissa := mantissa st * (if hex then 16 else 10) + (byte c - 0x30)\<rparr>))
      else if hex \<and> 0x61 \<le> lower (byte c) \<and> lower (byte c) \<le> 0x66 then
        Some (st\<lparr>sawdigits := True, nd := nd st + 1,
                 mantissa := mantissa st * 16 + (lower (byte c) - 0x61 + 10)\<rparr>)
      else None)"

fun digitLoop :: "(char \<Rightarrow> digits \<Rightarrow> digits option) \<Rightarrow> string \<Rightarrow> digits \<Rightarrow> digits \<times> string" where
  "digitLoop step [] st = (st, [])"
| "digitLoop step (c # cs) st =
     (case step c st of
        None \<Rightarrow> (st, c # cs)
      | Some st' \<Rightarrow> digitLoop step cs st')"

text \<open>The digits of the exponent: the value \<open>e\<close>, the flag \<open>underscores\<close>, the rest.\<close>

fun expLoop :: "string \<Rightarrow> nat \<Rightarrow> bool \<Rightarrow> (nat \<times> bool) \<times> string" where
  "expLoop [] e us = ((e, us), [])"
| "expLoop (c # cs) e us =
     (if c = CHR ''_'' then expLoop cs e True
      else if isDigit (byte c) then expLoop cs (if e < 10000 then e * 10 + (byte c - 0x30) else e) us
      else ((e, us), c # cs))"

text \<open>
  The end of \<open>readFloat\<close>, with \<open>rest\<close> the input behind the number: the significand,
  the exponent (of 10, or of 2 for a hexadecimal number) and the length read.
\<close>

definition readDone :: "string \<Rightarrow> string \<Rightarrow> nat \<Rightarrow> int \<Rightarrow> int \<Rightarrow> bool \<Rightarrow> (nat \<times> int \<times> nat) option" where
  "readDone s rest mant dp' ndMant us =
     (let i = length s - length rest in
      if us \<and> \<not> underscoreOK (take i s) then None
      else Some (mant, (if mant \<noteq> 0 then dp' - ndMant else 0), i))"

text \<open>\<open>readFloat\<close>: significand, exponent, \<open>neg\<close>, \<open>hex\<close> and the length read; \<open>None\<close> for \<open>!ok\<close>.\<close>

definition readFloat :: "string \<Rightarrow> (nat \<times> int \<times> bool \<times> bool \<times> nat) option" where
  "readFloat s =
     (case s of
        [] \<Rightarrow> None
      | c0 # _ \<Rightarrow>
         (let neg = (c0 = CHR ''-'');
              s1 = (if c0 = CHR ''+'' \<or> c0 = CHR ''-'' then tl s else s);
              hex = (2 < length s1 \<and> s1 ! 0 = CHR ''0'' \<and> lower (byte (s1 ! 1)) = 0x78);
              (st, s3) = digitLoop (digitStep hex) (if hex then drop 2 s1 else s1)
                           \<lparr>sawdot = False, sawdigits = False, nd = 0, dp = 0,
                            mantissa = 0, underscores = False\<rparr>
          in if \<not> sawdigits st then None
             else let dp1 = (if sawdot st then dp st else int (nd st));
                      dp2 = (if hex then dp1 * 4 else dp1);
                      ndMant = (if hex then int (nd st) * 4 else int (nd st));
                      fin = (\<lambda>rest dp' us.
                               map_option (\<lambda>(m, e, i). (m, e, neg, hex, i))
                                 (readDone s rest (mantissa st) dp' ndMant us))
               in case s3 of
                    [] \<Rightarrow> if hex then None else fin s3 dp2 (underscores st)
                  | c # s4 \<Rightarrow>
                      if lower (byte c) = (if hex then 0x70 else 0x65) then
                        (case s4 of
                           [] \<Rightarrow> None
                         | c' # s5 \<Rightarrow>
                            (let esign = (if c' = CHR ''-'' then - 1 else 1 :: int);
                                 s6 = (if c' = CHR ''+'' \<or> c' = CHR ''-'' then s5 else s4)
                             in case s6 of
                                  [] \<Rightarrow> None
                                | c'' # _ \<Rightarrow>
                                    if \<not> isDigit (byte c'') then None
                                    else let ((e, us), rest) = expLoop s6 0 (underscores st)
                                      in fin rest (dp2 + int e * esign) us))
                      else if hex then None
                      else fin s3 dp2 (underscores st)))"

text \<open>
  \<open>atof32\<close> and \<open>atof64\<close>, with the format as argument: value, length read, error.
  The length read after a syntax error plays no part in \<open>ParseFloat\<close> and is 0 here.
\<close>

definition atof :: "floatInfo \<Rightarrow> string \<Rightarrow> fpval \<times> nat \<times> numError option" where
  "atof flt s =
     (case special s of
        Some (v, n) \<Rightarrow> (v, n, None)
      | None \<Rightarrow>
         (case readFloat s of
            None \<Rightarrow> (Fin False 0 0, 0, Some ErrSyntax)
          | Some (mant, ex, neg, hex, n) \<Rightarrow>
             (let b = (if hex then 2 else 10 :: nat);
                  num = (if 0 \<le> ex then mant * b ^ nat ex else mant);
                  den = (if 0 \<le> ex then 1 else b ^ nat (- ex))
              in case roundFloat flt num den of
                   None \<Rightarrow> (Infinity neg, n, Some ErrRange)
                 | Some (m, e) \<Rightarrow> (Fin neg m e, n, None))))"

definition parseFloatPrefix :: "string \<Rightarrow> int \<Rightarrow> fpval \<times> nat \<times> numError option" where
  "parseFloatPrefix s bitSize = (if bitSize = 32 then atof float32info s else atof float64info s)"

definition ParseFloat :: "string \<Rightarrow> int \<Rightarrow> fpval \<times> numError option" where
  "ParseFloat s bitSize =
     (let (f, n, err) = parseFloatPrefix s bitSize
      in if n \<noteq> length s \<and> (err = None \<or> err \<noteq> Some ErrSyntax)
         then (Fin False 0 0, Some ErrSyntax)
         else (f, err))"

definition GetFloat :: "Ini \<Rightarrow> string \<Rightarrow> string \<Rightarrow> fpval \<Rightarrow> fpval" where
  "GetFloat i section key def =
     (let strValue = getString i section key;
          (result, err) = ParseFloat strValue 10
      in if err \<noteq> None then def else float32 result)"

subsection \<open>Lines, as the format describes them\<close>

text \<open>
  What the description of the format says of one line, after the outer trim: a blank
  line or a comment is ignored; a line that starts with \<open>[\<close> is a section header when
  it ends with \<open>]\<close> and is ignored otherwise; any other line is an assignment when it has
  exactly one \<open>=\<close>, with the trimmed text on either side as key and value, and is
  ignored otherwise.
\<close>

datatype lineKind = Ignored | Header string | Assign string string

definition classify :: "string \<Rightarrow> lineKind" where
  "classify text =
     (let line = TrimSpace text in
      if line = [] then Ignored
      else if hd line = CHR ''#'' \<or> hd line = CHR '';'' then Ignored
      else if hd line = CHR ''['' then
        (if last line = CHR '']'' then Header (butlast (tl line)) else Ignored)
      else if count_list line (CHR ''='') = 1 then
        Assign (TrimSpace (takeWhile (\<lambda>c. c \<noteq> CHR ''='') line))
               (TrimSpace (tl (dropWhile (\<lambda>c. c \<noteq> CHR ''='') line)))
      else Ignored)"

text \<open>The section that is current behind the lines \<open>ts\<close>, when it was \<open>cur\<close> before them.\<close>

fun sectionAfter :: "string \<Rightarrow> string list \<Rightarrow> string" where
  "sectionAfter cur [] = cur"
| "sectionAfter cur (t # ts) =
     sectionAfter (case classify t of Header S \<Rightarrow> S | _ \<Rightarrow> cur) ts"

text \<open>
  Whether one of the lines \<open>ts\<close> is an assignment to the key \<open>k\<close> of the section \<open>S\<close>,
  when the current section before them is \<open>cur\<close>.
\<close>

fun reassigned :: "string \<Rightarrow> string \<Rightarrow> string \<Rightarrow> string list \<Rightarrow> bool" where
  "reassigned S k cur [] = False"
| "reassigned S k cur (t # ts) =
     (case classify t of
        Ignored \<Rightarrow> reassigned S k cur ts
      | Header S' \<Rightarrow> reassigned S k S' ts
      | Assign k' v \<Rightarrow> (cur = S \<and> k' = k) \<or> reassigned S k cur ts)"

text \<open>The state in which \<open>parseLines\<close> enters its loop after \<open>clear\<close>.\<close>

definition initial :: pstate where
  "initial = ([], Map.empty([] \<mapsto> \<lparr>Item = Map.empty\<rparr>))"

text \<open>The value stored for a key of a section, if there is one.\<close>

definition lookup :: "(string \<rightharpoonup> KeyValue) \<Rightarrow> string \<Rightarrow> string \<Rightarrow> string option" where
  "lookup secs S k = (case secs S of None \<Rightarrow> None | Some kv \<Rightarrow> Item kv k)"

subsection \<open>Integer literals, as the format describes them\<close>

text \<open>
  The value of a digit, 36 for a byte that is none, and the value of a string of digits
  in the base \<open>b\<close>.
\<close>

definition digitVal :: "char \<Rightarrow> nat" where
  "digitVal c =
     (if 0x30 \<le> byte c \<and> byte c \<le> 0x39 then byte c - 0x30
      else if 0x61 \<le> byte c \<and> byte c \<le> 0x7A then byte c - 0x61 + 10
      else if 0x41 \<le> byte c \<and> byte c \<le> 0x5A then byte c - 0x41 + 10
      else 36)"

definition number :: "nat \<Rightarrow> string \<Rightarrow> nat" where
  "number b ds = foldl (\<lambda>n c. n * b + digitVal c) 0 ds"

text \<open>
  The value of an unsigned literal without separators: hexadecimal digits behind \<open>0x\<close>
  or \<open>0X\<close>, octal digits behind \<open>0\<close>, decimal digits otherwise; \<open>None\<close> for any other string.
\<close>

definition literalValue :: "string \<Rightarrow> nat option" where
  "literalValue s =
     (if s = [] then None
      else if hd s \<noteq> CHR ''0'' then
        (if list_all (\<lambda>c. digitVal c < 10) s then Some (number 10 s) else None)
      else if 3 \<le> length s \<and> (s ! 1 = CHR ''x'' \<or> s ! 1 = CHR ''X'') then
        (if list_all (\<lambda>c. digitVal c < 16) (drop 2 s) then Some (number 16 (drop 2 s)) else None)
      else if list_all (\<lambda>c. digitVal c < 8) (tl s) then Some (number 8 (tl s))
      else None)"

subsection \<open>Example inputs\<close>

definition twice :: string where
  "twice = ''a=1'' @ [CHR 0x0A] @ ''a=2''"

definition reopened :: string where
  "reopened = ''[s]'' @ [CHR 0x0A] @ ''k=1'' @ [CHR 0x0A] @ ''[t]'' @ [CHR 0x0A] @ ''[s]''
     @ [CHR 0x0A] @ '' j = 2 ''"

definition theme :: string where
  "theme = ''[theme]'' @ [CHR 0x0A] @ ''accent color= 0xff00ff''"

definition big :: string where
  "big = ''k=1e39''"

section \<open>Properties\<close>

subsection \<open>Splitting at one byte\<close>

lemma Index_single:
  "Index s [c] = (if c \<in> set s then Some (length (takeWhile (\<lambda>x. x \<noteq> c) s)) else None)"
  by (induction s) auto

lemma drop_takeWhile_tl:
  "drop (Suc (length (takeWhile (\<lambda>x. x \<noteq> c) s))) s = tl (dropWhile (\<lambda>x. x \<noteq> c) s)"
  by (induction s) auto

lemma take_takeWhile_len:
  "take (length (takeWhile P s)) s = takeWhile P s"
  by (induction s) auto

lemma count_list_split:
  "c \<in> set s \<Longrightarrow> count_list s c = Suc (count_list (tl (dropWhile (\<lambda>x. x \<noteq> c) s)) c)"
  by (induction s) auto

lemma genSplit_single_absent: "c \<notin> set s \<Longrightarrow> genSplit s [c] = [s]"
  by (subst genSplit.simps) (simp add: Index_single)

lemma genSplit_single_present:
  "c \<in> set s \<Longrightarrow>
   genSplit s [c] = takeWhile (\<lambda>x. x \<noteq> c) s # genSplit (tl (dropWhile (\<lambda>x. x \<noteq> c) s)) [c]"
  by (subst genSplit.simps) (simp add: Index_single drop_takeWhile_tl take_takeWhile_len)

lemma count_list_0_iff: "count_list s c = 0 \<longleftrightarrow> c \<notin> set s"
  by (induction s) auto

lemma length_genSplit_single: "length (genSplit s [c]) = Suc (count_list s c)"
proof (induction "length s" arbitrary: s rule: less_induct)
  case less
  show ?case
  proof (cases "c \<in> set s")
    case False
    then show ?thesis by (simp add: genSplit_single_absent count_list_0_iff)
  next
    case True
    let ?r = "tl (dropWhile (\<lambda>x. x \<noteq> c) s)"
    from True have "s \<noteq> []" by auto
    have "length (dropWhile (\<lambda>x. x \<noteq> c) s) \<le> length s" by (rule length_dropWhile_le)
    moreover have "dropWhile (\<lambda>x. x \<noteq> c) s \<noteq> []" using True by simp
    ultimately have "length ?r < length s" by (cases "dropWhile (\<lambda>x. x \<noteq> c) s") auto
    then have "length (genSplit ?r [c]) = Suc (count_list ?r c)" by (rule less)
    with True show ?thesis
      by (simp add: genSplit_single_present count_list_split [OF True])
  qed
qed

lemma Split_one_sep:
  assumes "count_list s c = 1"
  shows "Split s [c] = [takeWhile (\<lambda>x. x \<noteq> c) s, tl (dropWhile (\<lambda>x. x \<noteq> c) s)]"
proof -
  from assms have in_s: "c \<in> set s" using count_list_0_iff [of s c] by auto
  with assms have "count_list (tl (dropWhile (\<lambda>x. x \<noteq> c) s)) c = 0"
    using count_list_split [OF in_s] by simp
  then have "c \<notin> set (tl (dropWhile (\<lambda>x. x \<noteq> c) s))" by (simp add: count_list_0_iff)
  then show ?thesis
    by (simp add: Split_def genSplit_single_present [OF in_s] genSplit_single_absent)
qed

lemma length_Split_single: "length (Split s [c]) = Suc (count_list s c)"
  by (simp add: Split_def length_genSplit_single)

subsection \<open>One line\<close>

lemma slice_header:
  assumes "line \<noteq> []" "hd line = CHR ''[''" "last line = CHR '']''"
  shows "slice line 1 (length line - 1) = Inr (butlast (tl line))"
proof -
  from assms have "length line \<noteq> 1"
    by (cases line) auto
  with assms(1) have len: "2 \<le> length line"
    by (cases line) (auto simp: Suc_le_eq)
  have "butlast (tl line) = take (length line - 1 - 1) (drop 1 line)"
    by (simp add: butlast_conv_take drop_Suc)
  with len show ?thesis
    by (simp add: slice_def)
qed

lemma parseLine_Ignored: "classify text = Ignored \<Longrightarrow> parseLine text st = Inr st"
  by (auto simp: classify_def parseLine_def Let_def length_Split_single
      split: list.splits if_splits)

lemma parseLine_Header:
  assumes "classify text = Header S"
  shows "parseLine text (cur, secs) =
           Inr (S, if secs S = None then secs(S \<mapsto> \<lparr>Item = Map.empty\<rparr>) else secs)"
proof -
  let ?line = "TrimSpace text"
  from assms have l: "?line \<noteq> []" "hd ?line = CHR ''[''" "last ?line = CHR '']''"
    and S: "S = butlast (tl ?line)"
    by (auto simp: classify_def Let_def split: if_splits)
  from l obtain c cs where line: "?line = c # cs" "c = CHR ''[''"
    by (cases ?line) auto
  have sl: "slice ?line 1 (length ?line - 1) = Inr S"
    using slice_header [OF l] S by simp
  show ?thesis
    using sl l(3) unfolding parseLine_def Let_def line
    by (auto split: option.splits)
qed

lemma parseLine_Assign:
  assumes "classify text = Assign k v" "secs cur = Some kv"
  shows "parseLine text (cur, secs) =
           Inr (cur, secs(cur \<mapsto> kv\<lparr>Item := (Item kv)(k \<mapsto> v)\<rparr>))"
proof -
  let ?line = "TrimSpace text"
  from assms(1) have l: "?line \<noteq> []" "hd ?line \<noteq> CHR ''#''" "hd ?line \<noteq> CHR '';''"
    "hd ?line \<noteq> CHR ''[''" "count_list ?line (CHR ''='') = 1"
    and kv: "k = TrimSpace (takeWhile (\<lambda>c. c \<noteq> CHR ''='') ?line)"
      "v = TrimSpace (tl (dropWhile (\<lambda>c. c \<noteq> CHR ''='') ?line))"
    by (auto simp: classify_def Let_def split: if_splits)
  from l obtain c cs where line: "?line = c # cs"
    by (cases ?line) auto
  have sp: "Split (c # cs) ''='' =
      [takeWhile (\<lambda>c. c \<noteq> CHR ''='') (c # cs), tl (dropWhile (\<lambda>c. c \<noteq> CHR ''='') (c # cs))]"
    using Split_one_sep [of ?line "CHR ''=''"] l(5) line by simp
  show ?thesis
    using l kv assms(2) unfolding parseLine_def Let_def line sp
    by simp
qed

subsection \<open>The loop and the load\<close>

lemma parseLine_total:
  assumes "secs cur \<noteq> None"
  shows "\<exists>secs'. parseLine t (cur, secs) = Inr (sectionAfter cur [t], secs')
           \<and> secs' (sectionAfter cur [t]) \<noteq> None
           \<and> (\<forall>S. secs S \<noteq> None \<longrightarrow> secs' S \<noteq> None)"
proof (cases "classify t")
  case Ignored
  with assms show ?thesis by (simp add: parseLine_Ignored)
next
  case (Header S)
  with assms show ?thesis by (simp add: parseLine_Header)
next
  case (Assign k v)
  from assms obtain kv where "secs cur = Some kv" by auto
  with Assign show ?thesis by (simp add: parseLine_Assign)
qed

lemma parseLoop_total:
  assumes "secs cur \<noteq> None"
  shows "\<exists>secs'. parseLoop ts (cur, secs) = Inr (sectionAfter cur ts, secs')
           \<and> secs' (sectionAfter cur ts) \<noteq> None
           \<and> (\<forall>S. secs S \<noteq> None \<longrightarrow> secs' S \<noteq> None)"
  using assms
proof (induction ts arbitrary: cur secs)
  case Nil
  then show ?case by simp
next
  case (Cons t ts)
  let ?c = "sectionAfter cur [t]"
  from parseLine_total [of secs cur t] Cons.prems obtain s1 where
    s1: "parseLine t (cur, secs) = Inr (?c, s1)" "s1 ?c \<noteq> None"
      "\<forall>S. secs S \<noteq> None \<longrightarrow> s1 S \<noteq> None"
    by blast
  from Cons.IH [of s1 ?c] s1(2) obtain s2 where
    s2: "parseLoop ts (?c, s1) = Inr (sectionAfter ?c ts, s2)"
      "s2 (sectionAfter ?c ts) \<noteq> None" "\<forall>S. s1 S \<noteq> None \<longrightarrow> s2 S \<noteq> None"
    by blast
  have "sectionAfter ?c ts = sectionAfter cur (t # ts)" by simp
  with s1 s2 show ?case by auto
qed

lemma parseLoop_append:
  "parseLoop (xs @ ys) st =
     (case parseLoop xs st of Inl p \<Rightarrow> Inl p | Inr st' \<Rightarrow> parseLoop ys st')"
  by (induction xs arbitrary: st) (auto split: sum.splits)

lemma initial_ok: "snd initial (fst initial) \<noteq> None"
  by (simp add: initial_def)

lemma LoadFromBytes_parseLoop:
  "LoadFromBytes i buf =
     (case parseLoop (scanTokens buf) initial of
        Inl p \<Rightarrow> Inl p
      | Inr st \<Rightarrow> Inr \<lparr>fileName = fileName i, buffer = buf, sections = snd st\<rparr>)"
  by (simp add: LoadFromBytes_def parseLines_def clear_def initial_def split: sum.splits)

lemma LoadFromBytes_total:
  "\<exists>secs. parseLoop (scanTokens buf) initial = Inr (sectionAfter [] (scanTokens buf), secs)
     \<and> secs [] \<noteq> None
     \<and> LoadFromBytes i buf = Inr \<lparr>fileName = fileName i, buffer = buf, sections = secs\<rparr>"
proof -
  have "snd initial [] \<noteq> None" "fst initial = []" "initial = ([], snd initial)"
    by (simp_all add: initial_def)
  with parseLoop_total [of "snd initial" "[]" "scanTokens buf"]
  obtain secs where
    "parseLoop (scanTokens buf) initial = Inr (sectionAfter [] (scanTokens buf), secs)"
    "\<forall>S. snd initial S \<noteq> None \<longrightarrow> secs S \<noteq> None"
    by metis
  with \<open>snd initial [] \<noteq> None\<close> show ?thesis
    by (simp add: LoadFromBytes_parseLoop)
qed

lemma setDefaults_map:
  "setDefaults i d r = take i r @ map (\<lambda>x. if x = [] then d else x) (drop i r)"
proof (induction i d r rule: setDefaults.induct)
  case (1 i d r)
  show ?case
  proof (cases "i < length r")
    case False
    then show ?thesis by (subst setDefaults.simps) simp
  next
    case True
    let ?r = "if r ! i = [] then r[i := d] else r"
    have "setDefaults i d r = setDefaults (i + 1) d ?r"
      using True by (subst setDefaults.simps) simp
    also have "\<dots> = take (i + 1) ?r @ map (\<lambda>x. if x = [] then d else x) (drop (i + 1) ?r)"
      using True by (rule "1.IH")
    also have "take (i + 1) ?r = take i r @ [if r ! i = [] then d else r ! i]"
      using True by (simp add: take_Suc_conv_app_nth)
    also have "drop (i + 1) ?r = drop (Suc i) r"
      by simp
    finally show ?thesis
      using True by (simp add: Cons_nth_drop_Suc [symmetric])
  qed
qed

subsection \<open>A new instance\<close>

lemma ParseFloat_empty: "ParseFloat [] b = (Fin False 0 0, Some ErrSyntax)"
  by (simp add: ParseFloat_def parseFloatPrefix_def atof_def special_def readFloat_def)

lemma getString_NewIni: "getString NewIni S k = []"
  by (simp add: getString_def NewIni_def clear_def)

lemma genSplit_empty: "sep \<noteq> [] \<Longrightarrow> genSplit [] sep = [[]]"
  by (subst genSplit.simps) simp

lemma genSplit_empty_sep: "genSplit s [] = explode s"
  by (subst genSplit.simps) simp

subsection \<open>Values along the loop\<close>

lemma getString_lookup:
  "getString i S k = (case lookup (sections i) S k of None \<Rightarrow> [] | Some v \<Rightarrow> v)"
  by (simp add: getString_def lookup_def split: option.splits)

lemma KeyExists_lookup: "KeyExists i S k \<longleftrightarrow> lookup (sections i) S k \<noteq> None"
  by (simp add: KeyExists_def lookup_def split: option.splits)

lemma parseLine_lookup:
  assumes "secs cur \<noteq> None" "parseLine t (cur, secs) = Inr (cur', secs')"
  shows "lookup secs' S k =
           (case classify t of
              Assign k' v \<Rightarrow> if S = cur \<and> k = k' then Some v else lookup secs S k
            | _ \<Rightarrow> lookup secs S k)"
proof (cases "classify t")
  case Ignored
  with assms show ?thesis by (simp add: parseLine_Ignored)
next
  case (Header S')
  with assms show ?thesis by (auto simp: parseLine_Header lookup_def split: if_splits)
next
  case (Assign k' v)
  from assms obtain kv where "secs cur = Some kv" by auto
  with Assign assms show ?thesis by (auto simp: parseLine_Assign lookup_def)
qed

lemma parseLoop_keeps:
  assumes "secs cur \<noteq> None" "\<not> reassigned S k cur ts"
    "parseLoop ts (cur, secs) = Inr (cur', secs')"
  shows "lookup secs' S k = lookup secs S k"
  using assms
proof (induction ts arbitrary: cur secs)
  case Nil
  then show ?case by simp
next
  case (Cons t ts)
  let ?c = "sectionAfter cur [t]"
  from parseLine_total [of secs cur t] Cons.prems(1) obtain s1 where
    s1: "parseLine t (cur, secs) = Inr (?c, s1)" "s1 ?c \<noteq> None"
    by blast
  from Cons.prems(2) have no: "\<not> reassigned S k ?c ts"
    by (cases "classify t") auto
  from Cons.prems(3) s1(1) have "parseLoop ts (?c, s1) = Inr (cur', secs')"
    by simp
  with Cons.IH [of s1 ?c] s1(2) no have "lookup secs' S k = lookup s1 S k"
    by blast
  also from Cons.prems(2) have "lookup s1 S k = lookup secs S k"
    using parseLine_lookup [OF Cons.prems(1) s1(1), of S k]
    by (cases "classify t") auto
  finally show ?case .
qed

lemma parseLoop_exists:
  assumes "secs cur \<noteq> None" "lookup secs S k \<noteq> None"
    "parseLoop ts (cur, secs) = Inr (cur', secs')"
  shows "lookup secs' S k \<noteq> None"
  using assms
proof (induction ts arbitrary: cur secs)
  case Nil
  then show ?case by simp
next
  case (Cons t ts)
  let ?c = "sectionAfter cur [t]"
  from parseLine_total [of secs cur t] Cons.prems(1) obtain s1 where
    s1: "parseLine t (cur, secs) = Inr (?c, s1)" "s1 ?c \<noteq> None"
    by blast
  from Cons.prems(2) have "lookup s1 S k \<noteq> None"
    using parseLine_lookup [OF Cons.prems(1) s1(1), of S k]
    by (cases "classify t") auto
  moreover from Cons.prems(3) s1(1) have "parseLoop ts (?c, s1) = Inr (cur', secs')"
    by simp
  ultimately show ?case
    using Cons.IH [of s1 ?c] s1(2) by blast
qed

text \<open>
  A run over lines with an assignment in the middle: the value of its key in the
  section then current is the one assigned, as long as no later line assigns it again.
\<close>

lemma parseLoop_assigned:
  assumes inv: "secs cur \<noteq> None"
    and a: "classify text = Assign k v"
    and no: "\<not> reassigned (sectionAfter cur pre) k (sectionAfter cur pre) post"
  shows "\<exists>secs'. parseLoop (pre @ text # post) (cur, secs)
             = Inr (sectionAfter cur (pre @ text # post), secs')
           \<and> lookup secs' (sectionAfter cur pre) k = Some v"
proof -
  let ?S = "sectionAfter cur pre"
  from parseLoop_total [of secs cur pre] inv obtain s1 where
    s1: "parseLoop pre (cur, secs) = Inr (?S, s1)" "s1 ?S \<noteq> None"
    by blast
  from parseLine_total [of s1 ?S "text"] s1(2) a obtain s2 where
    s2: "parseLine text (?S, s1) = Inr (?S, s2)" "s2 ?S \<noteq> None"
    by auto
  have l2: "lookup s2 ?S k = Some v"
    using parseLine_lookup [OF s1(2) s2(1), of ?S k] a by simp
  from parseLoop_total [of s2 ?S post] s2(2) obtain s3 where
    s3: "parseLoop post (?S, s2) = Inr (sectionAfter ?S post, s3)"
    by blast
  have "lookup s3 ?S k = lookup s2 ?S k"
    using parseLoop_keeps [OF s2(2) no s3] .
  moreover have "parseLoop (pre @ text # post) (cur, secs) = Inr (sectionAfter ?S post, s3)"
    using s1(1) s2(1) s3 by (simp add: parseLoop_append)
  moreover have "sectionAfter cur (pre @ text # post) = sectionAfter ?S post"
    using a by (induction pre arbitrary: cur) auto
  ultimately show ?thesis
    using l2 by simp
qed

subsection \<open>The example inputs\<close>

lemmas scan_eval = scanTokens.simps Scan_def ScanLines_def MaxScanTokenSize_def dropCR_def
lemmas trim_eval = byte_def RuneSelf_def asciiSpace_def
lemmas line_eval = classify_def trim_eval Let_def

lemma scan_twice: "scanTokens twice = [''a=1'', ''a=2'']"
  by (simp add: twice_def scan_eval)

lemma scan_reopened: "scanTokens reopened = [''[s]'', ''k=1'', ''[t]'', ''[s]'', '' j = 2 '']"
  by (simp add: reopened_def scan_eval)

lemma classify_examples:
  "classify ''a=1'' = Assign ''a'' ''1''"
  "classify ''a=2'' = Assign ''a'' ''2''"
  "classify ''k=1'' = Assign ''k'' ''1''"
  "classify '' j = 2 '' = Assign ''j'' ''2''"
  "classify ''[s]'' = Header ''s''"
  "classify ''[t]'' = Header ''t''"
  "classify ''a=b=c'' = Ignored"
  by (simp_all add: line_eval)

subsection \<open>Numbers\<close>

lemma special_1e39: "special ''1e39'' = None"
  by (simp add: special_def)

lemma readFloat_1e39: "readFloat ''1e39'' = Some (1, 39, False, False, 4)"
  by (simp add: readFloat_def readDone_def digitStep_def isDigit_def lower_def byte_def Let_def)

lemma bitLen_numeral:
  "bitLen 0 = 0"
  "bitLen (Suc 0) = 1"
  "bitLen (numeral (Num.Bit0 n)) = Suc (bitLen (numeral n))"
  "bitLen (numeral (Num.Bit1 n)) = Suc (bitLen (numeral n))"
  by (subst bitLen.simps, simp)+

lemma bitLen_1e39: "bitLen 1000000000000000000000000000000000000000 = 130"
  by (simp add: bitLen_numeral)

lemma round64_1e39:
  "roundFloat float64info 1000000000000000000000000000000000000000 (Suc 0) = Some (6617444900424221, 77)"
  by (simp add: roundFloat_def float64info_def bitLen_1e39 bitLen_numeral geq2_def Let_def)

lemma round32_1e39:
  "roundFloat float32info 1000000000000000000000000000000000000000 (Suc 0) = None"
  by (simp add: roundFloat_def float32info_def bitLen_1e39 bitLen_numeral geq2_def Let_def)

lemma round32_double_1e39:
  "roundFloat float32info 999999999999999939709166371603178586112 (Suc 0) = None"
  by (simp add: roundFloat_def float32info_def bitLen_numeral geq2_def Let_def)

lemma atof64_1e39: "atof float64info ''1e39'' = (Fin False 6617444900424221 77, 4, None)"
  by (simp add: atof_def special_1e39 readFloat_1e39 round64_1e39)

lemma atof32_1e39: "atof float32info ''1e39'' = (Infinity False, 4, Some ErrRange)"
  by (simp add: atof_def special_1e39 readFloat_1e39 round32_1e39)

lemma float32_1e39: "float32 (Fin False 6617444900424221 77) = Infinity False"
  by (simp add: float32_def round32_double_1e39)

lemmas int_eval = ParseInt_def ParseUint_def basePrefix_def uintStep_def lower_def isDigit_def
  byte_def maxUint64_def IntSize_def

lemma ParseInt_examples:
  "ParseInt ''0xff00ff'' 0 32 = (16711935, None)"
  "ParseInt ''0755'' 0 32 = (493, None)"
  "ParseInt ''-2147483648'' 0 32 = (- 2147483648, None)"
  "ParseInt ''2147483648'' 0 32 = (2147483647, Some ErrRange)"
  "ParseInt ''12a'' 0 32 = (0, Some ErrSyntax)"
  by (simp_all add: int_eval)

lemma ParseInt_range:
  assumes "ParseInt s 0 32 = (r, None)"
  shows "- (2 ^ 31) \<le> r \<and> r < 2 ^ 31"
proof (cases s)
  case Nil
  with assms show ?thesis by (simp add: ParseInt_def)
next
  case (Cons c cs)
  obtain un err where
    u: "ParseUint (if c = CHR ''+'' \<or> c = CHR ''-'' then cs else s) 0 32 = (un, err)"
    by (cases "ParseUint (if c = CHR ''+'' \<or> c = CHR ''-'' then cs else s) 0 32")
  from assms show ?thesis
    unfolding ParseInt_def Cons list.case Let_def u [unfolded Cons] prod.case
    by (simp split: if_splits)
qed

lemma scan_theme: "scanTokens theme = [''[theme]'', ''accent color= 0xff00ff'']"
  by (simp add: theme_def scan_eval)

lemma classify_theme:
  "classify ''[theme]'' = Header ''theme''"
  "classify ''accent color= 0xff00ff'' = Assign ''accent color'' ''0xff00ff''"
  "classify ''k=1e39'' = Assign ''k'' ''1e39''"
  by (simp_all add: line_eval)

lemma load_theme:
  "LoadFromBytes NewIni theme =
     Inr \<lparr>fileName = [], buffer = theme,
          sections = [[] \<mapsto> \<lparr>Item = Map.empty\<rparr>,
                      ''theme'' \<mapsto> \<lparr>Item = [''accent color'' \<mapsto> ''0xff00ff'']\<rparr>]\<rparr>"
proof -
  have "parseLoop [''[theme]'', ''accent color= 0xff00ff''] initial =
      Inr (''theme'', [[] \<mapsto> \<lparr>Item = Map.empty\<rparr>,
                      ''theme'' \<mapsto> \<lparr>Item = [''accent color'' \<mapsto> ''0xff00ff'']\<rparr>])"
    by (simp add: initial_def parseLine_Assign parseLine_Header classify_theme)
  then show ?thesis
    by (simp add: LoadFromBytes_parseLoop scan_theme NewIni_def clear_def)
qed

lemma load_big:
  "LoadFromBytes NewIni big =
     Inr \<lparr>fileName = [], buffer = big, sections = [[] \<mapsto> \<lparr>Item = [''k'' \<mapsto> ''1e39'']\<rparr>]\<rparr>"
proof -
  have "scanTokens big = [''k=1e39'']"
    by (simp add: big_def scan_eval)
  moreover have "parseLoop [''k=1e39''] initial = Inr ([], [[] \<mapsto> \<lparr>Item = [''k'' \<mapsto> ''1e39'']\<rparr>])"
    by (simp add: initial_def parseLine_Assign classify_theme)
  ultimately show ?thesis
    by (simp add: LoadFromBytes_parseLoop NewIni_def clear_def)
qed

section \<open>The claims of the specification\<close>

text \<open>
  C3: loading \<open>b\<close> after \<open>a\<close> leaves the sections (and the buffer) that loading \<open>b\<close> into
  a new instance gives; neither load fails.
\<close>

theorem load_replaces:
  "\<exists>i1 i2 i3. LoadFromBytes i a = Inr i1 \<and> LoadFromBytes i1 b = Inr i2
     \<and> LoadFromBytes NewIni b = Inr i3
     \<and> sections i2 = sections i3 \<and> buffer i2 = buffer i3 \<and> fileName i2 = fileName i"
proof -
  obtain s1 where 1: "LoadFromBytes i a = Inr \<lparr>fileName = fileName i, buffer = a, sections = s1\<rparr>"
    using LoadFromBytes_total [of a i] by blast
  let ?i1 = "\<lparr>fileName = fileName i, buffer = a, sections = s1\<rparr>"
  obtain s2 where 2: "parseLoop (scanTokens b) initial = Inr (sectionAfter [] (scanTokens b), s2)"
    using LoadFromBytes_total [of b i] by blast
  have "LoadFromBytes ?i1 b = Inr \<lparr>fileName = fileName i, buffer = b, sections = s2\<rparr>"
    "LoadFromBytes NewIni b = Inr \<lparr>fileName = fileName NewIni, buffer = b, sections = s2\<rparr>"
    using 2 by (simp_all add: LoadFromBytes_parseLoop)
  with 1 show ?thesis by simp
qed

theorem load_replaces_witness:
  "\<exists>i1 i2 i3. LoadFromBytes NewIni ''a=1'' = Inr i1 \<and> LoadFromBytes i1 ''b=2'' = Inr i2
     \<and> LoadFromBytes NewIni ''b=2'' = Inr i3
     \<and> sections i2 = sections i3 \<and> buffer i2 = buffer i3 \<and> fileName i2 = fileName NewIni"
  using load_replaces [of NewIni "''a=1''" "''b=2''"] by simp

text \<open>
  C4: every load from bytes succeeds and leaves the section with the empty name in the
  store, also for the empty input, and so does every load from a file that can be read.
\<close>

theorem empty_section_after_load:
  "(\<exists>i'. LoadFromBytes i buf = Inr i' \<and> SectionExists i' [] \<and> [] \<in> GetSectionValues i')
   \<and> (\<exists>i'. LoadFromBytes i [] = Inr i' \<and> SectionExists i' [] \<and> [] \<in> GetSectionValues i')
   \<and> (fs path = Inr buf \<longrightarrow>
        (\<exists>i'. LoadFromFile fs i path = Inr (i', None) \<and> SectionExists i' []
           \<and> [] \<in> GetSectionValues i'))"
proof -
  have *: "\<exists>i'. LoadFromBytes i b = Inr i' \<and> SectionExists i' [] \<and> [] \<in> GetSectionValues i'" for b
    using LoadFromBytes_total [of b i]
    by (auto simp: SectionExists_def GetSectionValues_def)
  from * [of buf] have "fs path = Inr buf \<longrightarrow>
        (\<exists>i'. LoadFromFile fs i path = Inr (i', None) \<and> SectionExists i' []
           \<and> [] \<in> GetSectionValues i')"
    by (auto simp: LoadFromFile_def)
  with * show ?thesis by blast
qed

theorem empty_section_after_load_witness:
  "\<exists>i'. LoadFromFile (\<lambda>p. if p = ''a.ini'' then Inr ''[s]'' else Inl ()) NewIni ''a.ini'' = Inr (i', None)
     \<and> SectionExists i' [] \<and> [] \<in> GetSectionValues i'"
  using empty_section_after_load
    [of NewIni "''[s]''" "\<lambda>p. if p = ''a.ini'' then Inr ''[s]'' else Inl ()" "''a.ini''"]
  by simp

text \<open>
  C7: \<open>GetStringSlice\<close> returns the split of the raw string as it is when the separator is
  empty or the split has no element, and otherwise the split with every empty element
  replaced by the default and the other elements unchanged.
\<close>

theorem GetStringSlice_split:
  "GetStringSlice i S k d sep =
     (let r = Split (getString i S k) sep
      in if sep = [] \<or> r = [] then r else map (\<lambda>x. if x = [] then d else x) r)"
  by (simp add: GetStringSlice_def Let_def setDefaults_map)

theorem GetStringSlice_split_witness:
  "GetStringSlice \<lparr>fileName = [], buffer = [],
       sections = [[] \<mapsto> \<lparr>Item = [''k'' \<mapsto> ''v1,v2,,v4'']\<rparr>]\<rparr> [] ''k'' ''D'' '','' =
     [''v1'', ''v2'', ''D'', ''v4'']"
  using GetStringSlice_split [of "\<lparr>fileName = [], buffer = [],
       sections = [[] \<mapsto> \<lparr>Item = [''k'' \<mapsto> ''v1,v2,,v4'']\<rparr>]\<rparr>" "[]" "''k''" "''D''" "'',''"]
  by (simp add: getString_def Split_def genSplit.simps)

text \<open>
  C9: \<open>LoadFromFile\<close> returns an error exactly when the file cannot be read, and then the
  instance is the one before the call.
\<close>

theorem LoadFromFile_error:
  "LoadFromFile fs i path = Inr (i', Some e) \<longleftrightarrow> fs path = Inl e \<and> i' = i"
  by (auto simp: LoadFromFile_def split: sum.splits)

theorem LoadFromFile_error_witness:
  "LoadFromFile (\<lambda>p. Inl ''no such file'') NewIni ''a.ini'' = Inr (NewIni, Some ''no such file'')"
  using LoadFromFile_error [of "\<lambda>p. Inl ''no such file''" NewIni "''a.ini''" NewIni "''no such file''"]
  by simp

text \<open>
  C10: a new instance has no section, not even the one with the empty name; every query
  on it returns: no key exists, and each getter returns the default it is given
  (\<open>GetStringSlice\<close> the default as its one element, or no element when the separator
  is empty).
\<close>

theorem new_instance:
  "\<not> SectionExists NewIni [] \<and> GetSectionValues NewIni = {}
   \<and> \<not> KeyExists NewIni S k
   \<and> GetString NewIni S k d = d
   \<and> GetInt NewIni S k n = n
   \<and> GetUint NewIni S k u = u
   \<and> GetFloat NewIni S k f = f
   \<and> GetBool NewIni S k b = b
   \<and> GetStringSlice NewIni S k d sep = (if sep = [] then [] else [d])"
proof -
  have "\<not> SectionExists NewIni []" "GetSectionValues NewIni = {}" "\<not> KeyExists NewIni S k"
    by (simp_all add: SectionExists_def GetSectionValues_def KeyExists_def NewIni_def clear_def)
  moreover have "GetString NewIni S k d = d"
    by (simp add: GetString_def getString_NewIni)
  moreover have "GetInt NewIni S k n = n"
    by (simp add: GetInt_def getString_NewIni ParseInt_def)
  moreover have "GetUint NewIni S k u = u"
    by (simp add: GetUint_def getString_NewIni ParseUint_def)
  moreover have "GetFloat NewIni S k f = f"
    by (simp add: GetFloat_def getString_NewIni ParseFloat_empty)
  moreover have "GetBool NewIni S k b = b"
    by (simp add: GetBool_def getString_NewIni ParseBool_def)
  moreover have "GetStringSlice NewIni S k d sep = (if sep = [] then [] else [d])"
    by (simp add: GetStringSlice_def getString_NewIni Split_def genSplit_empty
        genSplit_empty_sep setDefaults_map)
  ultimately show ?thesis by blast
qed

theorem new_instance_witness:
  "\<not> SectionExists NewIni [] \<and> GetSectionValues NewIni = {}
   \<and> \<not> KeyExists NewIni ''theme'' ''accent color''
   \<and> GetString NewIni ''theme'' ''accent color'' ''none'' = ''none''
   \<and> GetInt NewIni ''theme'' ''accent color'' 1000 = 1000
   \<and> GetUint NewIni ''theme'' ''accent color'' 7 = 7
   \<and> GetFloat NewIni ''theme'' ''accent color'' (Fin False 5 (- 1)) = Fin False 5 (- 1)
   \<and> GetBool NewIni ''theme'' ''accent color'' True = True
   \<and> GetStringSlice NewIni ''theme'' ''accent color'' ''none'' '','' = [''none'']"
  using new_instance [of "''theme''" "''accent color''" "''none''" 1000 7 "Fin False 5 (- 1)" True "'',''"]
  by simp

text \<open>
  C1, as amended: for every line that the scanner delivers and that is an assignment of
  \<open>v\<close> to \<open>k\<close>, if no later delivered line assigns \<open>k\<close> in the same section again, then
  after the load \<open>GetString\<close> with the default \<open>""\<close> returns \<open>v\<close> for \<open>k\<close> in the section
  that was current at the line.
\<close>

theorem last_assignment_wins:
  assumes "scanTokens buf = pre @ line # post"
    and "classify line = Assign k v"
    and "\<not> reassigned (sectionAfter [] pre) k (sectionAfter [] pre) post"
  shows "\<exists>i'. LoadFromBytes i buf = Inr i' \<and> GetString i' (sectionAfter [] pre) k [] = v"
proof -
  have "snd initial [] \<noteq> None" and init: "initial = ([], snd initial)"
    by (simp_all add: initial_def)
  with parseLoop_assigned [of "snd initial" "[]" line k v pre post] assms(2,3)
  obtain secs' where
    "parseLoop (pre @ line # post) initial = Inr (sectionAfter [] (pre @ line # post), secs')"
    "lookup secs' (sectionAfter [] pre) k = Some v"
    by metis
  with assms(1) show ?thesis
    by (simp add: LoadFromBytes_parseLoop GetString_def getString_lookup)
qed

theorem last_assignment_wins_witness:
  "\<exists>i'. LoadFromBytes NewIni reopened = Inr i' \<and> GetString i' ''s'' ''j'' [] = ''2''"
  using last_assignment_wins
    [of reopened "[''[s]'', ''k=1'', ''[t]'', ''[s]'']" "'' j = 2 ''" "[]" "''j''" "''2''" NewIni]
  by (simp add: scan_reopened classify_examples)

text \<open>
  The claim as it is written fails where a key is assigned twice: the first line of
  \<open>twice\<close> is a valid assignment of \<open>1\<close> to \<open>a\<close> in the section with the empty name, and
  after the load \<open>GetString\<close> returns \<open>2\<close>.
\<close>

theorem first_assignment_overwritten:
  "scanTokens twice = [''a=1'', ''a=2''] \<and> classify ''a=1'' = Assign ''a'' ''1''
   \<and> sectionAfter [] [] = []
   \<and> LoadFromBytes NewIni twice =
       Inr \<lparr>fileName = [], buffer = twice, sections = [[] \<mapsto> \<lparr>Item = [''a'' \<mapsto> ''2'']\<rparr>]\<rparr>
   \<and> GetString \<lparr>fileName = [], buffer = twice, sections = [[] \<mapsto> \<lparr>Item = [''a'' \<mapsto> ''2'']\<rparr>]\<rparr>
         [] ''a'' [] \<noteq> ''1''"
proof -
  have "parseLoop [''a=1'', ''a=2''] initial = Inr ([], [[] \<mapsto> \<lparr>Item = [''a'' \<mapsto> ''2'']\<rparr>])"
    by (simp add: initial_def parseLine_Assign classify_examples)
  then show ?thesis
    by (simp add: scan_twice classify_examples LoadFromBytes_parseLoop NewIni_def clear_def
        GetString_def getString_def)
qed

text \<open>
  C2: a line that, after the trim, is not blank, does not start with \<open>#\<close>, \<open>;\<close> or \<open>[\<close>
  and has no \<open>=\<close> or more than one leaves the state of the parser as it is: the run
  over the lines, and with it the store after the load, is the one without the line.
\<close>

theorem malformed_line_ignored:
  assumes "TrimSpace line \<noteq> []"
    and "hd (TrimSpace line) \<notin> {CHR ''#'', CHR '';'', CHR ''[''}"
    and "count_list (TrimSpace line) (CHR ''='') \<noteq> 1"
  shows "parseLine line st = Inr st
     \<and> parseLoop (pre @ line # post) st = parseLoop (pre @ post) st
     \<and> (scanTokens buf = pre @ line # post \<and> scanTokens buf' = pre @ post \<longrightarrow>
          map_sum id sections (LoadFromBytes i buf) = map_sum id sections (LoadFromBytes i buf'))"
proof -
  from assms have ign: "classify line = Ignored"
    by (simp add: classify_def Let_def)
  then have step: "parseLine line st' = Inr st'" for st'
    by (rule parseLine_Ignored)
  then have run: "parseLoop (pre @ line # post) st' = parseLoop (pre @ post) st'" for st'
    by (simp add: parseLoop_append split: sum.splits)
  show ?thesis
    using step [of st] run [of st] run [of initial]
    by (auto simp: LoadFromBytes_parseLoop split: sum.splits)
qed

theorem malformed_line_ignored_witness:
  "parseLine ''a=b=c'' initial = Inr initial
   \<and> parseLoop [''a=1'', ''a=b=c'', ''a=2''] initial = parseLoop [''a=1'', ''a=2''] initial"
  using malformed_line_ignored [of "''a=b=c''" initial "[''a=1'']" "[''a=2'']" "[]" "[]" NewIni]
  by (simp add: trim_eval)

text \<open>
  C5: when a header names a section that earlier lines have filled, the header leaves
  the store as it is and makes the section current; a key that was there is still
  there after the load, with its value unless a later line assigns it, and with the
  value of the last later assignment otherwise.
\<close>

theorem section_reopened:
  assumes "scanTokens buf = l1 @ h # l2"
    and "classify h = Header S"
    and "parseLoop l1 initial = Inr (c1, s1)"
    and "lookup s1 S k = Some v1"
  shows "parseLine h (c1, s1) = Inr (S, s1)
     \<and> (\<exists>i'. LoadFromBytes i buf = Inr i' \<and> KeyExists i' S k
           \<and> (\<not> reassigned S k S l2 \<longrightarrow> getString i' S k = v1)
           \<and> (\<forall>m1 a m2 v2. l2 = m1 @ a # m2 \<and> classify a = Assign k v2
                 \<and> sectionAfter S m1 = S \<and> \<not> reassigned S k S m2 \<longrightarrow>
                 getString i' S k = v2))"
proof -
  have S: "s1 S \<noteq> None"
    using assms(4) by (auto simp: lookup_def split: option.splits)
  then have h: "parseLine h (c1, s1) = Inr (S, s1)"
    using assms(2) by (auto simp: parseLine_Header)
  from parseLoop_total [of s1 S l2] S obtain s3 where
    s3: "parseLoop l2 (S, s1) = Inr (sectionAfter S l2, s3)"
    by blast
  have all: "parseLoop (l1 @ h # l2) initial = Inr (sectionAfter S l2, s3)"
    using assms(3) h s3 by (simp add: parseLoop_append)
  have ex: "lookup s3 S k \<noteq> None"
    using parseLoop_exists [where S = S and k = k, OF S _ s3] assms(4) by simp
  have keep: "lookup s3 S k = Some v1" if "\<not> reassigned S k S l2"
    using parseLoop_keeps [OF S that s3] assms(4) by simp
  have over: "lookup s3 S k = Some v2"
    if "l2 = m1 @ a # m2" "classify a = Assign k v2" "sectionAfter S m1 = S"
      "\<not> reassigned S k S m2" for m1 a m2 v2
  proof -
    from parseLoop_assigned [of s1 S a k v2 m1 m2] S that obtain s4 where
      "parseLoop l2 (S, s1) = Inr (sectionAfter S l2, s4)" "lookup s4 S k = Some v2"
      by auto
    with s3 show ?thesis by simp
  qed
  let ?i = "\<lparr>fileName = fileName i, buffer = buf, sections = s3\<rparr>"
  have "LoadFromBytes i buf = Inr ?i"
    using all assms(1) by (simp add: LoadFromBytes_parseLoop)
  moreover have "KeyExists ?i S k"
    using ex by (simp add: KeyExists_lookup)
  moreover have "\<not> reassigned S k S l2 \<longrightarrow> getString ?i S k = v1"
    using keep by (simp add: getString_lookup)
  moreover have "\<forall>m1 a m2 v2. l2 = m1 @ a # m2 \<and> classify a = Assign k v2
                 \<and> sectionAfter S m1 = S \<and> \<not> reassigned S k S m2 \<longrightarrow>
                 getString ?i S k = v2"
    using over by (auto simp: getString_lookup)
  ultimately show ?thesis
    using h by blast
qed

theorem section_reopened_witness:
  "\<exists>i'. LoadFromBytes NewIni reopened = Inr i' \<and> KeyExists i' ''s'' ''k''
     \<and> getString i' ''s'' ''k'' = ''1''"
proof -
  have "parseLoop [''[s]'', ''k=1'', ''[t]''] initial =
      Inr (''t'', [[] \<mapsto> \<lparr>Item = Map.empty\<rparr>, ''s'' \<mapsto> \<lparr>Item = [''k'' \<mapsto> ''1'']\<rparr>,
                    ''t'' \<mapsto> \<lparr>Item = Map.empty\<rparr>])"
    by (simp add: initial_def parseLine_Assign parseLine_Header classify_examples)
  moreover have "lookup [[] \<mapsto> \<lparr>Item = Map.empty\<rparr>, ''s'' \<mapsto> \<lparr>Item = [''k'' \<mapsto> ''1'']\<rparr>,
                    ''t'' \<mapsto> \<lparr>Item = Map.empty\<rparr>] ''s'' ''k'' = Some ''1''"
    by (simp add: lookup_def)
  moreover have "\<not> reassigned ''s'' ''k'' ''s'' ['' j = 2 '']"
    by (simp add: classify_examples)
  ultimately show ?thesis
    using section_reopened [of reopened "[''[s]'', ''k=1'', ''[t]'']" "''[s]''" "['' j = 2 '']"
        "''s''" "''t''" _ "''k''" "''1''" NewIni]
    by (simp add: scan_reopened classify_examples) blast
qed

text \<open>
  C8: \<open>GetInt\<close> returns the default when the raw string is empty or \<open>ParseInt\<close> with base 0
  and 32 bits reports an error, and the parsed value otherwise, which then fits 32 bits
  signed; a prefix \<open>0x\<close> is read as hexadecimal, a leading \<open>0\<close> as octal, anything else
  as decimal; and after loading \<open>accent color= 0xff00ff\<close> under \<open>[theme]\<close> the value read with
  the default 1000 is 16711935.
\<close>

theorem GetInt_parses:
  "(getString i S k = [] \<longrightarrow> GetInt i S k d = d)
   \<and> (snd (ParseInt (getString i S k) 0 32) \<noteq> None \<longrightarrow> GetInt i S k d = d)
   \<and> (snd (ParseInt (getString i S k) 0 32) = None \<longrightarrow>
        GetInt i S k d = fst (ParseInt (getString i S k) 0 32)
        \<and> - (2 ^ 31) \<le> GetInt i S k d \<and> GetInt i S k d < 2 ^ 31)
   \<and> ParseInt ''0xff00ff'' 0 32 = (16711935, None)
   \<and> ParseInt ''0755'' 0 32 = (493, None)
   \<and> ParseInt ''-2147483648'' 0 32 = (- 2147483648, None)
   \<and> ParseInt ''2147483648'' 0 32 = (2147483647, Some ErrRange)
   \<and> ParseInt ''12a'' 0 32 = (0, Some ErrSyntax)
   \<and> (\<exists>j. LoadFromBytes NewIni theme = Inr j
          \<and> GetInt j ''theme'' ''accent color'' 1000 = 16711935)"
proof -
  have "getString i S k = [] \<longrightarrow> GetInt i S k d = d"
    by (simp add: GetInt_def ParseInt_def)
  moreover have "snd (ParseInt (getString i S k) 0 32) \<noteq> None \<longrightarrow> GetInt i S k d = d"
    by (simp add: GetInt_def split: prod.splits)
  moreover have "snd (ParseInt (getString i S k) 0 32) = None \<longrightarrow>
        GetInt i S k d = fst (ParseInt (getString i S k) 0 32)
        \<and> - (2 ^ 31) \<le> GetInt i S k d \<and> GetInt i S k d < 2 ^ 31"
    using ParseInt_range [of "getString i S k"]
    by (cases "ParseInt (getString i S k) 0 32") (simp add: GetInt_def)
  moreover have "\<exists>j. LoadFromBytes NewIni theme = Inr j
          \<and> GetInt j ''theme'' ''accent color'' 1000 = 16711935"
    by (simp add: load_theme GetInt_def getString_def ParseInt_examples)
  ultimately show ?thesis
    using ParseInt_examples by blast
qed

theorem GetInt_parses_witness:
  "GetInt NewIni ''theme'' ''accent color'' 1000 = 1000
   \<and> (\<exists>j. LoadFromBytes NewIni theme = Inr j
          \<and> GetInt j ''theme'' ''accent color'' 1000 = 16711935)"
  using GetInt_parses [of NewIni "''theme''" "''accent color''" 1000]
  by (simp add: getString_NewIni)

text \<open>
  C6 does not hold of the code: \<open>GetFloat\<close> calls \<open>ParseFloat\<close> with the bit size 10,
  which parses for 64 bits. The value \<open>1e39\<close> is beyond the 32-bit range, and parsing it
  for 32 bits is a range error; \<open>GetFloat\<close> parses it without an error and returns its
  conversion to 32 bits, an infinity, not the default 2.5.
\<close>

theorem GetFloat_parses_for_64_bits:
  "ParseFloat ''1e39'' 32 = (Infinity False, Some ErrRange)
   \<and> ParseFloat ''1e39'' 10 = (Fin False 6617444900424221 77, None)
   \<and> LoadFromBytes NewIni big =
       Inr \<lparr>fileName = [], buffer = big, sections = [[] \<mapsto> \<lparr>Item = [''k'' \<mapsto> ''1e39'']\<rparr>]\<rparr>
   \<and> GetFloat \<lparr>fileName = [], buffer = big, sections = [[] \<mapsto> \<lparr>Item = [''k'' \<mapsto> ''1e39'']\<rparr>]\<rparr>
         [] ''k'' (Fin False 5 (- 1)) = Infinity False"
  by (simp add: ParseFloat_def parseFloatPrefix_def atof64_1e39 atof32_1e39 float32_1e39
      load_big GetFloat_def getString_def)

end
